theory Spec2Isabelle
  imports Complex_Main "HOL-Library.AList" "HOL-Library.Sublist" "HOL-Library.Log_Nat"
begin

section \<open>Python strings\<close>

text \<open>
  A Python \<open>str\<close> is a sequence of code points. The model reads a \<^typ>\<open>char\<close> as a code
  point below 256 (ASCII and the Latin-1 supplement), where \<open>str.lower\<close> keeps the length
  of the text, so an index found in the lowered text is an index of the original text.
\<close>

definition py_isspace :: "char \<Rightarrow> bool" where
  \<comment> \<open>\<open>str.isspace\<close> and the regular expression class \<open>\s\<close> on code points below 256\<close>
  "py_isspace c =
     (let n = (of_char c :: nat)
      in (9 \<le> n \<and> n \<le> 13) \<or> (28 \<le> n \<and> n \<le> 32) \<or> n = 133 \<or> n = 160)"

definition py_isalnum :: "char \<Rightarrow> bool" where
  \<comment> \<open>\<open>str.isalnum\<close> on code points below 256: letters, digits and the numeric signs\<close>
  "py_isalnum c =
     (let n = (of_char c :: nat)
      in (48 \<le> n \<and> n \<le> 57) \<or> (65 \<le> n \<and> n \<le> 90) \<or> (97 \<le> n \<and> n \<le> 122)
         \<or> n = 170 \<or> n = 178 \<or> n = 179 \<or> n = 181 \<or> n = 185 \<or> n = 186
         \<or> (188 \<le> n \<and> n \<le> 190) \<or> (192 \<le> n \<and> n \<le> 214)
         \<or> (216 \<le> n \<and> n \<le> 246) \<or> (248 \<le> n \<and> n \<le> 255))"

definition re_word :: "char \<Rightarrow> bool" where
  \<comment> \<open>the regular expression class \<open>\w\<close>: alphanumeric, or the underscore\<close>
  "re_word c = (py_isalnum c \<or> c = CHR ''_'')"

definition py_lower_char :: "char \<Rightarrow> char" where
  "py_lower_char c =
     (let n = (of_char c :: nat)
      in if (65 \<le> n \<and> n \<le> 90) \<or> (192 \<le> n \<and> n \<le> 222 \<and> n \<noteq> 215)
         then char_of (n + 32) else c)"

definition py_lower :: "string \<Rightarrow> string" where
  "py_lower s = map py_lower_char s"

definition py_strip :: "string \<Rightarrow> string" where
  \<comment> \<open>\<open>str.strip()\<close>: leading and trailing whitespace removed\<close>
  "py_strip s = rev (dropWhile py_isspace (rev (dropWhile py_isspace s)))"

fun split_ws :: "string \<Rightarrow> string \<Rightarrow> string list" where
  "split_ws w [] = (if w = [] then [] else [w])"
| "split_ws w (c # cs) =
     (if py_isspace c then (if w = [] then split_ws [] cs else w # split_ws [] cs)
      else split_ws (w @ [c]) cs)"

definition py_split :: "string \<Rightarrow> string list" where
  \<comment> \<open>\<open>str.split()\<close> with no separator: the maximal runs of non-whitespace\<close>
  "py_split s = split_ws [] s"

fun py_join :: "string \<Rightarrow> string list \<Rightarrow> string" where
  "py_join sep [] = []"
| "py_join sep [w] = w"
| "py_join sep (w # v # ws) = w @ sep @ py_join sep (v # ws)"

fun py_find :: "string \<Rightarrow> string \<Rightarrow> nat option" where
  \<comment> \<open>\<open>s.find(sub)\<close>: the lowest index where \<open>sub\<close> starts; \<open>None\<close> stands for \<open>-1\<close>\<close>
  "py_find [] sub = (if sub = [] then Some 0 else None)"
| "py_find (c # cs) sub =
     (if prefix sub (c # cs) then Some 0 else map_option Suc (py_find cs sub))"

definition py_in :: "string \<Rightarrow> string \<Rightarrow> bool" where
  \<comment> \<open>\<open>sub in s\<close> on strings: \<open>sub\<close> occurs in \<open>s\<close> as a contiguous run\<close>
  "py_in sub s = (py_find s sub \<noteq> None)"

definition re_sub_nonword :: "string \<Rightarrow> string" where
  \<comment> \<open>\<open>re.sub(r'[^\w\s]', '', text)\<close>\<close>
  "re_sub_nonword s = filter (\<lambda>c. re_word c \<or> py_isspace c) s"


section \<open>The lexical normaliser\<close>

definition lemmatization_map :: "(string \<times> string) list" where
  "lemmatization_map =
     [(''are'', ''be''), (''am'', ''be''), (''is'', ''be''), (''was'', ''be''), (''were'', ''be''),
      (''running'', ''run''), (''ran'', ''run''), (''runs'', ''run''),
      (''going'', ''go''), (''went'', ''go''), (''goes'', ''go''),
      (''having'', ''have''), (''had'', ''have''), (''has'', ''have''),
      (''doing'', ''do''), (''did'', ''do''), (''does'', ''do''),
      (''saying'', ''say''), (''said'', ''say''), (''says'', ''say''),
      (''orders'', ''order''), (''ordered'', ''order''),
      (''returns'', ''return''), (''returned'', ''return''),
      (''problems'', ''problem''), (''issues'', ''issue'')]"

definition lemmatize :: "string \<Rightarrow> string" where
  \<comment> \<open>\<open>lemmatization_map.get(word, word)\<close>\<close>
  "lemmatize w = (case map_of lemmatization_map w of None \<Rightarrow> w | Some l \<Rightarrow> l)"

definition preprocess_text :: "string \<Rightarrow> string" where
  \<comment> \<open>\<open>SimpleTextPreprocessor.preprocess_text\<close>\<close>
  "preprocess_text t =
     (if t = [] then []
      else let t1 = py_lower t;
               t2 = re_sub_nonword t1;
               words = py_split t2;
               processed_words = map lemmatize words
           in py_join '' '' processed_words)"

definition clean_text :: "string \<Rightarrow> string" where
  \<comment> \<open>\<open>TextPreprocessor._clean_text\<close>, the first stage of \<open>TextPreprocessor.process\<close>\<close>
  "clean_text t = re_sub_nonword (py_strip (py_lower t))"

definition string_punctuation :: "string" where
  \<comment> \<open>Python's \<open>string.punctuation\<close>\<close>
  "string_punctuation =
     [CHR ''!'', CHR 0x22, CHR ''#'', CHR ''$'', CHR ''%'', CHR ''&'', CHR 0x27, CHR ''('',
      CHR '')'', CHR ''*'', CHR ''+'', CHR '','', CHR ''-'', CHR ''.'', CHR ''/'', CHR '':'',
      CHR '';'', CHR ''<'', CHR ''='', CHR ''>'', CHR ''?'', CHR ''@'', CHR ''['', CHR 0x5C,
      CHR '']'', CHR ''^'', CHR ''_'', CHR 0x60, CHR ''{'', CHR ''|'', CHR ''}'', CHR ''~'']"


section \<open>The context store\<close>

text \<open>
  \<open>datetime.now()\<close> is modelled by the sequence of its successive readings, in microseconds:
  \<open>clock cm k\<close> is the \<open>k\<close>-th reading the process takes and \<open>clock_reads cm\<close> counts the
  readings taken so far. The ISO text the source stores is the reading itself
  (\<open>fromisoformat\<close> inverts \<open>isoformat\<close>). A dictionary is an association list in
  insertion order. The difference of two readings is a whole number of microseconds;
  \<open>total_seconds\<close> turns it into a \<open>float\<close>, and the model keeps that rounding. Readings of
  \<open>datetime\<close> lie between the years 1 and 9999, so the quotient is never zero by underflow
  nor out of the range of \<open>float\<close>.
\<close>

record turn =
  timestamp :: int
  user_input :: string
  bot_response :: string
  intent :: string
  application :: string

record 'a deque =
  maxlen :: nat
  items :: "'a list"

definition deque_append :: "'a deque \<Rightarrow> 'a \<Rightarrow> 'a deque" where
  \<comment> \<open>\<open>collections.deque.append\<close> with a \<open>maxlen\<close>: append on the right, then drop on the
      left while the deque is longer than \<open>maxlen\<close>\<close>
  "deque_append d x =
     (let xs = items d @ [x]
      in d\<lparr>items := (if maxlen d < length xs then tl xs else xs)\<rparr>)"

datatype py_value = PyBool bool | PyStr string

record user_context =
  user_id :: string
  conversation_history :: "turn deque"
  current_application :: string
  user_name :: "string option"
  user_preferences :: "string \<rightharpoonup> py_value"
  session_start :: int
  last_activity :: int
  message_count :: nat
  context_variables :: "string \<rightharpoonup> py_value"

record context_manager =
  max_context_length :: nat
  session_timeout :: int
  user_contexts :: "(string \<times> user_context) list"
  clock :: "nat \<Rightarrow> int"
  clock_reads :: nat

definition ContextManager :: "nat \<Rightarrow> int \<Rightarrow> (nat \<Rightarrow> int) \<Rightarrow> context_manager" where
  \<comment> \<open>\<open>ContextManager.__init__\<close>; the defaults are 10 turns and 3600 seconds\<close>
  "ContextManager n t clk =
     \<lparr>max_context_length = n, session_timeout = t, user_contexts = [],
      clock = clk, clock_reads = 0\<rparr>"

definition datetime_now :: "context_manager \<Rightarrow> int \<times> context_manager" where
  "datetime_now cm = (clock cm (clock_reads cm), cm\<lparr>clock_reads := Suc (clock_reads cm)\<rparr>)"

definition round_half_even :: "real \<Rightarrow> int" where
  \<comment> \<open>the nearest integer, a tie going to the even one\<close>
  "round_half_even x =
     (let f = \<lfloor>x\<rfloor>; r = x - real_of_int f
      in if r < 1 / 2 then f else if 1 / 2 < r then f + 1 else if even f then f else f + 1)"

definition float_exponent :: "int \<Rightarrow> int" where
  \<comment> \<open>for \<open>n > 0\<close>, the binary exponent \<open>e\<close> of \<open>n / 10^6\<close>: \<open>2^e \<le> n / 10^6 < 2^(e + 1)\<close>
      (\<open>bitlen\<close> is Python's \<open>int.bit_length\<close>)\<close>
  "float_exponent n = bitlen (n * 2 ^ 20 div 1000000) - 21"

definition total_seconds :: "int \<Rightarrow> real" where
  \<comment> \<open>\<open>timedelta.total_seconds()\<close> of a difference of \<open>d\<close> microseconds: the integer quotient
      \<open>d / 10**6\<close> as a \<open>float\<close>, that is rounded to the nearest number with a 53-bit mantissa,
      a tie going to the even mantissa\<close>
  "total_seconds d =
     (if d = 0 then 0
      else let n = \<bar>d\<bar>;
               e = float_exponent n;
               mantissa = round_half_even (real_of_int n / 1000000 * 2 powi (52 - e))
           in real_of_int (sgn d * mantissa) * 2 powi (e - 52))"

definition session_expired :: "int \<Rightarrow> int \<Rightarrow> user_context \<Rightarrow> bool" where
  \<comment> \<open>the test of \<open>_cleanup_expired_sessions\<close>: \<open>session_age > self.session_timeout\<close>\<close>
  "session_expired timeout current_time c =
     (total_seconds (current_time - last_activity c) > real_of_int timeout)"

definition cleanup_expired_sessions :: "context_manager \<Rightarrow> context_manager" where
  "cleanup_expired_sessions cm =
     (let (current_time, cm1) = datetime_now cm;
          expired_users =
            map fst (filter (\<lambda>(u, c). session_expired (session_timeout cm1) current_time c)
                       (user_contexts cm1))
      in cm1\<lparr>user_contexts := foldl (\<lambda>d u. AList.delete u d) (user_contexts cm1) expired_users\<rparr>)"

definition create_new_context :: "context_manager \<Rightarrow> string \<Rightarrow> user_context \<times> context_manager" where
  "create_new_context cm uid =
     (let (t1, cm1) = datetime_now cm;
          (t2, cm2) = datetime_now cm1
      in (\<lparr>user_id = uid,
           conversation_history = \<lparr>maxlen = max_context_length cm, items = []\<rparr>,
           current_application = ''customer_support'',
           user_name = None,
           user_preferences = Map.empty,
           session_start = t1,
           last_activity = t2,
           message_count = 0,
           context_variables = Map.empty\<rparr>, cm2))"

definition get_context :: "context_manager \<Rightarrow> string \<Rightarrow> user_context \<times> context_manager" where
  \<comment> \<open>returns the context stored under \<open>uid\<close> and the store that holds it\<close>
  "get_context cm uid =
     (let cm1 = cleanup_expired_sessions cm
      in case map_of (user_contexts cm1) uid of
           None \<Rightarrow>
             (let (c, cm2) = create_new_context cm1 uid
              in (c, cm2\<lparr>user_contexts := AList.update uid c (user_contexts cm2)\<rparr>))
         | Some c0 \<Rightarrow>
             (let (t, cm2) = datetime_now cm1;
                  c = c0\<lparr>last_activity := t\<rparr>
              in (c, cm2\<lparr>user_contexts := AList.update uid c (user_contexts cm2)\<rparr>)))"

definition name_patterns :: "string list" where
  "name_patterns =
     [''my name is'', [CHR ''i'', CHR 0x27] @ ''m called'', ''i am'', ''call me'',
      ''you can call me'']"

fun extract_name_loop :: "string list \<Rightarrow> string \<Rightarrow> string \<Rightarrow> string option \<Rightarrow> string option" where
  \<comment> \<open>the \<open>for pattern in name_patterns\<close> loop: the first pattern found ends it\<close>
  "extract_name_loop [] low inp nm = nm"
| "extract_name_loop (p # ps) low inp nm =
     (case py_find low p of
        None \<Rightarrow> extract_name_loop ps low inp nm
      | Some i \<Rightarrow>
          (let name_start = i + length p;
               potential_name = py_strip (drop name_start inp)
           in case py_split potential_name of
                [] \<Rightarrow> nm
              | name # _ \<Rightarrow> if length name > 1 then Some name else nm))"

definition extract_user_name :: "user_context \<Rightarrow> string \<Rightarrow> user_context" where
  "extract_user_name c inp =
     c\<lparr>user_name := extract_name_loop name_patterns (py_lower inp) inp (user_name c)\<rparr>"

definition positive_words :: "string list" where
  "positive_words = [''great'', ''good'', ''excellent'', ''thanks'', ''thank you'', ''awesome'']"

definition negative_words :: "string list" where
  "negative_words = [''bad'', ''terrible'', ''awful'', ''horrible'', ''disappointed'']"

definition any_word_in :: "string list \<Rightarrow> string \<Rightarrow> bool" where
  \<comment> \<open>\<open>any(word in text for word in words)\<close>, and a \<open>for\<close> loop left at its first hit\<close>
  "any_word_in ws t = list_ex (\<lambda>w. py_in w t) ws"

definition update_context_variables :: "user_context \<Rightarrow> string \<Rightarrow> string \<Rightarrow> user_context" where
  "update_context_variables c inp tg =
     (let low = py_lower inp;
          v0 = context_variables c;
          v1 = (if any_word_in [''problem'', ''issue'', ''error'', ''not working''] low
                then v0(''has_issues'' \<mapsto> PyBool True) else v0);
          v2 = (if py_in ''order'' low then v1(''discussing_orders'' \<mapsto> PyBool True) else v1);
          v3 = (if any_word_in positive_words low
                then v2(''last_sentiment'' \<mapsto> PyStr ''positive'') else v2);
          v4 = (if any_word_in negative_words low
                then v3(''last_sentiment'' \<mapsto> PyStr ''negative'') else v3)
      in c\<lparr>context_variables := v4\<rparr>)"

definition update_context ::
  "context_manager \<Rightarrow> string \<Rightarrow> string \<Rightarrow> string \<Rightarrow> string \<Rightarrow> string \<Rightarrow> context_manager" where
  \<comment> \<open>the context is the object held in the store: its changes are written back\<close>
  "update_context cm uid inp resp tg app =
     (let (c0, cm1) = get_context cm uid;
          (ts, cm2) = datetime_now cm1;
          c1 = c0\<lparr>conversation_history :=
                    deque_append (conversation_history c0)
                      \<lparr>timestamp = ts, user_input = inp, bot_response = resp,
                       intent = tg, application = app\<rparr>\<rparr>;
          c2 = c1\<lparr>current_application := app\<rparr>;
          c3 = c2\<lparr>message_count := message_count c2 + 1\<rparr>;
          c4 = extract_user_name c3 inp;
          c5 = update_context_variables c4 inp tg
      in cm2\<lparr>user_contexts := AList.update uid c5 (user_contexts cm2)\<rparr>)"






fun run_updates ::
  "context_manager \<Rightarrow> (string \<times> string \<times> string \<times> string \<times> string) list \<Rightarrow> context_manager" where
  \<comment> \<open>a sequence of \<open>update_context\<close> calls, each \<open>(user_id, user_input, bot_response, intent,
      application)\<close>\<close>
  "run_updates cm [] = cm"
| "run_updates cm ((uid, inp, resp, tg, app) # calls) =
     run_updates (update_context cm uid inp resp tg app) calls"

definition store_inv :: "nat \<Rightarrow> context_manager \<Rightarrow> bool" where
  \<comment> \<open>every stored history was created with capacity \<open>n\<close> and holds at most \<open>n\<close> turns\<close>
  "store_inv n cm =
     (max_context_length cm = n \<and>
      (\<forall>p \<in> set (user_contexts cm).
         maxlen (conversation_history (snd p)) = n \<and>
         length (items (conversation_history (snd p))) \<le> n))"


section \<open>The training corpus and its manager\<close>

text \<open>
  The corpus dictionary is \<open>{"applications": {name: {"patterns": [...], "responses": [...],
  "tags": [...]}}}\<close>. \<open>None\<close> stands for a dictionary without the \<open>"applications"\<close> key, as
  the manager's \<open>data\<close> is before \<open>load_data\<close>.
\<close>

record app_data =
  patterns :: "string list"
  responses :: "string list"
  tags :: "string list"

type_synonym applications = "(string \<times> app_data) list"

type_synonym training_data = "applications option"

record training_data_manager =
  data_file :: string
  data :: training_data

definition save_data :: "bool \<Rightarrow> training_data_manager \<Rightarrow> bool" where
  \<comment> \<open>\<open>TrainingDataManager.save_data\<close>: whether the directory and the file can be written
      is the first argument; an \<open>OSError\<close> is caught and reported as \<open>False\<close>\<close>
  "save_data disk_ok m = disk_ok"

definition add_example ::
  "bool \<Rightarrow> training_data_manager \<Rightarrow> string \<Rightarrow> string \<Rightarrow> string \<Rightarrow> string
     \<Rightarrow> bool \<times> training_data_manager" where
  "add_example disk_ok m app pattern response tg =
     (case data m of
        None \<Rightarrow> (False, m)
      | Some apps \<Rightarrow>
          (let apps1 = (if map_of apps app = None
                        then AList.update app \<lparr>patterns = [], responses = [], tags = []\<rparr> apps
                        else apps);
               apps2 = AList.map_entry app
                         (\<lambda>a. a\<lparr>patterns := app_data.patterns a @ [pattern]\<rparr>) apps1;
               apps3 = AList.map_entry app
                         (\<lambda>a. a\<lparr>responses := app_data.responses a @ [response]\<rparr>) apps2;
               apps4 = AList.map_entry app
                         (\<lambda>a. a\<lparr>tags := app_data.tags a @ [tg]\<rparr>) apps3;
               m1 = m\<lparr>data := Some apps4\<rparr>;
               success = save_data disk_ok m1
           in (success, m1)))"


section \<open>The intent classifier\<close>

text \<open>
  The vectoriser and the similarity are scikit-learn's. The model takes them as operations:
  \<open>fit\<close> learns the vocabulary and the weights from the documents (\<open>None\<close> when it raises, as
  it does on an empty vocabulary), \<open>transform\<close> gives the row of one text, and
  \<open>cosine_similarity\<close> compares two rows. \<open>fit_transform\<close> is \<open>fit\<close> followed by one row per
  document. Scores are real numbers.
\<close>

record ('m, 'v) sklearn =
  fit :: "string list \<Rightarrow> 'm option"
  transform :: "'m \<Rightarrow> string \<Rightarrow> 'v option"
  cosine_similarity :: "'v \<Rightarrow> 'v \<Rightarrow> real"

fun those_rows :: "'v option list \<Rightarrow> 'v list option" where
  "those_rows [] = Some []"
| "those_rows (None # rs) = None"
| "those_rows (Some r # rs) = map_option ((#) r) (those_rows rs)"

definition fit_transform :: "('m, 'v) sklearn \<Rightarrow> string list \<Rightarrow> ('m \<times> 'v list) option" where
  "fit_transform sk docs =
     (case fit sk docs of
        None \<Rightarrow> None
      | Some m \<Rightarrow> map_option (Pair m) (those_rows (map (transform sk m) docs)))"

record tag_info =
  application :: string
  tag :: string

record ('m, 'v) intent_classifier =
  max_features :: nat
  min_confidence :: real
  vectorizer :: "'m option"
  trained :: bool
  patterns :: "string list"
  tags :: "tag_info list"
  X :: "'v list option"

definition IntentClassifier :: "nat \<Rightarrow> real \<Rightarrow> ('m, 'v) intent_classifier" where
  \<comment> \<open>\<open>IntentClassifier.__init__\<close>; the defaults are 5000 features and 0.3\<close>
  "IntentClassifier mf mc =
     \<lparr>max_features = mf, min_confidence = mc, vectorizer = None, trained = False,
      patterns = [], tags = [], X = None\<rparr>"

definition train_collect ::
  "string list \<times> tag_info list \<Rightarrow> string \<times> app_data \<Rightarrow> string list \<times> tag_info list" where
  \<comment> \<open>one round of the loop over the applications\<close>
  "train_collect acc entry =
     (let app_name = fst entry; app = snd entry
      in if length (app_data.patterns app) \<noteq> length (app_data.tags app) then acc
         else (fst acc @ app_data.patterns app,
               snd acc @ map (\<lambda>t. \<lparr>application = app_name, tag = t\<rparr>) (app_data.tags app)))"

definition train ::
  "('m, 'v) sklearn \<Rightarrow> ('m, 'v) intent_classifier \<Rightarrow> training_data
     \<Rightarrow> bool \<times> ('m, 'v) intent_classifier" where
  "train sk c training =
     (let apps = (case training of None \<Rightarrow> [] | Some a \<Rightarrow> a);
          (all_patterns, all_tags) = foldl train_collect ([], []) apps
      in if all_patterns = [] then (False, c)
         else let c1 = c\<lparr>patterns := all_patterns, tags := all_tags\<rparr>
              in case fit_transform sk all_patterns of
                   None \<Rightarrow> (False, c1\<lparr>trained := False\<rparr>)
                 | Some (m, rows) \<Rightarrow>
                     (True, c1\<lparr>vectorizer := Some m, X := Some rows, trained := True\<rparr>))"

definition recent_intents :: "user_context \<Rightarrow> string list" where
  \<comment> \<open>\<open>[msg.get('intent', '') for msg in list(history)[-3:]]\<close>\<close>
  "recent_intents c =
     (let history = items (conversation_history c)
      in map intent (drop (length history - 3) history))"

definition apply_context_scoring ::
  "real \<Rightarrow> tag_info \<Rightarrow> string \<Rightarrow> user_context option \<Rightarrow> real" where
  "apply_context_scoring confidence ti app ctx =
     (let a0 = confidence;
          a1 = (if tag_info.application ti = app then min (a0 * 1.1) 1.0 else a0)
      in case ctx of
           None \<Rightarrow> a1
         | Some c \<Rightarrow>
             if items (conversation_history c) \<noteq> [] \<and> tag ti \<in> set (recent_intents c)
             then a1 * 1.05 else a1)"

primrec argmax_scan :: "real list \<Rightarrow> nat \<Rightarrow> nat \<times> real \<Rightarrow> nat \<times> real" where
  "argmax_scan [] i best = best"
| "argmax_scan (x # xs) i best = argmax_scan xs (Suc i) (if snd best < x then (i, x) else best)"

definition argmax :: "real list \<Rightarrow> nat option" where
  \<comment> \<open>\<open>np.argmax\<close>: the first index of the largest entry; \<open>None\<close> when it raises on an
      empty row\<close>
  "argmax xs = (case xs of [] \<Rightarrow> None | x # ys \<Rightarrow> Some (fst (argmax_scan ys 1 (0, x))))"

definition similarities :: "('m, 'v) sklearn \<Rightarrow> ('m, 'v) intent_classifier \<Rightarrow> string \<Rightarrow> real list option" where
  \<comment> \<open>\<open>cosine_similarity(self.vectorizer.transform([text]), self.X)[0]\<close>; \<open>None\<close> when a step
      raises\<close>
  "similarities sk c txt =
     (case vectorizer c of
        None \<Rightarrow> None
      | Some m \<Rightarrow>
          (case X c of
             None \<Rightarrow> None
           | Some rows \<Rightarrow>
               (case transform sk m txt of
                  None \<Rightarrow> None
                | Some v \<Rightarrow> Some (map (cosine_similarity sk v) rows))))"

definition predict ::
  "('m, 'v) sklearn \<Rightarrow> ('m, 'v) intent_classifier \<Rightarrow> string \<Rightarrow> string \<Rightarrow> user_context option
     \<Rightarrow> string \<times> real" where
  "predict sk c txt app ctx =
     (if \<not> trained c then (''unknown'', 0)
      else case similarities sk c txt of
             None \<Rightarrow> (''unknown'', 0)
           | Some sims \<Rightarrow>
               (case argmax sims of
                  None \<Rightarrow> (''unknown'', 0)
                | Some best_match_idx \<Rightarrow>
                    (let confidence = sims ! best_match_idx
                     in if confidence \<ge> min_confidence c
                        then (if best_match_idx < length (tags c)
                              then (let best_tag_info = tags c ! best_match_idx
                                    in (tag best_tag_info,
                                        apply_context_scoring confidence best_tag_info app ctx))
                              else (''unknown'', 0))
                        else (''unknown'', confidence))))"


definition counts_match :: "string \<times> app_data \<Rightarrow> bool" where
  \<comment> \<open>an application that the loop of \<open>train\<close> does not skip\<close>
  "counts_match entry = (length (app_data.patterns (snd entry)) = length (app_data.tags (snd entry)))"

definition entry_tags :: "string \<times> app_data \<Rightarrow> tag_info list" where
  "entry_tags entry = map (\<lambda>t. \<lparr>application = fst entry, tag = t\<rparr>) (app_data.tags (snd entry))"

definition corpus_tags :: "training_data \<Rightarrow> string list" where
  \<comment> \<open>every tag a corpus supplies\<close>
  "corpus_tags training =
     (case training of None \<Rightarrow> [] | Some apps \<Rightarrow> concat (map (\<lambda>e. app_data.tags (snd e)) apps))"

fun train_all ::
  "('m, 'v) sklearn \<Rightarrow> ('m, 'v) intent_classifier \<times> training_data option \<Rightarrow> training_data list
     \<Rightarrow> ('m, 'v) intent_classifier \<times> training_data option" where
  \<comment> \<open>a sequence of \<open>train\<close> calls on one classifier; the second component keeps the corpus
      of the last call that returned \<open>True\<close>\<close>
  "train_all sk s [] = s"
| "train_all sk s (d # ds) =
     (let r = train sk (fst s) d
      in train_all sk (snd r, if fst r then Some d else snd s) ds)"


section \<open>Worked inputs\<close>

definition example_context :: user_context where
  \<comment> \<open>the context of a user after one greeting\<close>
  "example_context =
     fst (get_context
            (update_context (ContextManager 10 3600 (\<lambda>k. int k)) ''u1'' ''hello'' ''Hello!''
               ''greeting'' ''customer_support'') ''u1'')"

fun word_run :: "nat \<Rightarrow> string \<Rightarrow> bool" where
  "word_run n [] = (2 \<le> n)"
| "word_run n (c # cs) = (if re_word c then word_run (Suc n) cs else (2 \<le> n \<or> word_run 0 cs))"

definition has_token :: "string \<Rightarrow> bool" where
  \<comment> \<open>the vectoriser's default token pattern \<open>\b\w\w+\b\<close> finds a token: the text has a run of
      two or more word characters\<close>
  "has_token s = word_run 0 s"

definition token_vectorizer :: "(string list, string) sklearn" where
  \<comment> \<open>a stand-in for the fitted vectoriser in worked inputs. Its \<open>fit\<close> raises as
      scikit-learn's does when no document has a token (\<open>ValueError: empty vocabulary\<close>);
      the removal of stop words, left out here, only empties more vocabularies. Its rows are
      the texts and its similarity tells equal texts from different ones.\<close>
  "token_vectorizer =
     \<lparr>fit = (\<lambda>docs. if list_ex has_token docs then Some docs else None),
      transform = (\<lambda>m t. Some t),
      cosine_similarity = (\<lambda>a b. if a = b then 1 else 1 / 5)\<rparr>"

definition example_corpus :: training_data where
  "example_corpus =
     Some [(''customer_support'',
            \<lparr>app_data.patterns = [''hello'', ''order status''],
             app_data.responses = [''Hello!'', ''I can check your order status.''],
             app_data.tags = [''greeting'', ''order_status'']\<rparr>),
           (''college_helpdesk'',
            \<lparr>app_data.patterns = [''tuition fees'', ''library hours''],
             app_data.responses = [''Tuition fees vary by program.''],
             app_data.tags = [''fees'']\<rparr>)]"

definition symbols_corpus :: training_data where
  \<comment> \<open>one application, counts matching, whose only pattern has no token\<close>
  "symbols_corpus =
     Some [(''faq'', \<lparr>app_data.patterns = [''?''], app_data.responses = [''Ask me anything.''],
             app_data.tags = [''help'']\<rparr>)]"


definition trained_example :: "(string list, string) intent_classifier" where
  "trained_example = snd (train token_vectorizer (IntentClassifier 5000 0.3) example_corpus)"


definition train_inv :: "('m, 'v) intent_classifier \<times> training_data option \<Rightarrow> bool" where
  \<comment> \<open>the invariant of \<open>train_all\<close>: a trained classifier holds tags of the corpus kept\<close>
  "train_inv s = (trained (fst s) \<longrightarrow>
     (\<exists>d. snd s = Some d \<and> tag ` set (intent_classifier.tags (fst s)) \<subseteq> set (corpus_tags d)))"

definition add_to_entry :: "app_data option \<Rightarrow> string \<Rightarrow> string \<Rightarrow> string \<Rightarrow> app_data" where
  \<comment> \<open>the entry of an application after one more example; a missing entry starts empty\<close>
  "add_to_entry old pattern response tg =
     (let a = (case old of None \<Rightarrow> \<lparr>app_data.patterns = [], app_data.responses = [], app_data.tags = []\<rparr> | Some a \<Rightarrow> a)
      in \<lparr>app_data.patterns = app_data.patterns a @ [pattern],
          app_data.responses = app_data.responses a @ [response],
          app_data.tags = app_data.tags a @ [tg]\<rparr>)"

definition example_manager :: training_data_manager where
  "example_manager = \<lparr>data_file = ''backend/data/chatbot_data.json'', data = example_corpus\<rparr>"

definition example_store :: context_manager where
  \<comment> \<open>a store of capacity 2 after two turns of one user; the clock reads 0, 1, 2, ...\<close>
  "example_store =
     run_updates (ContextManager 2 3600 (\<lambda>k. int k))
       [(''u1'', ''hello'', ''Hello!'', ''greeting'', ''customer_support''),
        (''u1'', ''order status'', ''Which order?'', ''order_status'', ''customer_support'')]"



section \<open>Properties of the normaliser\<close>

lemma lower_nonword:
  assumes "\<not> re_word c"
  shows "py_lower_char c = c"
proof -
  define n where "n = (of_char c :: nat)"
  have na: "\<not> py_isalnum c" using assms by (simp add: re_word_def)
  have a: "65 \<le> n \<Longrightarrow> n \<le> 90 \<Longrightarrow> py_isalnum c"
    unfolding py_isalnum_def Let_def n_def[symmetric] by blast
  have b: "192 \<le> n \<Longrightarrow> n \<le> 214 \<Longrightarrow> py_isalnum c"
    unfolding py_isalnum_def Let_def n_def[symmetric] by blast
  have d: "216 \<le> n \<Longrightarrow> n \<le> 246 \<Longrightarrow> py_isalnum c"
    unfolding py_isalnum_def Let_def n_def[symmetric] by blast
  have e: "192 \<le> n \<and> n \<le> 222 \<and> n \<noteq> 215 \<Longrightarrow> n \<le> 214 \<or> (216 \<le> n \<and> n \<le> 246)"
    by arith
  have "\<not> ((65 \<le> n \<and> n \<le> 90) \<or> (192 \<le> n \<and> n \<le> 222 \<and> n \<noteq> 215))"
    using na a b d e by blast
  then show ?thesis
    unfolding py_lower_char_def Let_def n_def[symmetric] by (simp only: if_False)
qed

lemma split_ws_spaces: "\<forall>c\<in>set s. py_isspace c \<Longrightarrow> split_ws [] s = []"
  by (induction s) auto

text \<open>
  Text without a word character (a letter, a digit or the underscore) is normalised to the
  empty string: whitespace, and every punctuation sign but the underscore.
\<close>

lemma preprocess_text_nonword:
  assumes "\<forall>c\<in>set t. \<not> re_word c"
  shows "preprocess_text t = []"
proof -
  have l: "py_lower t = t" unfolding py_lower_def using assms
    by (induction t) (auto simp: lower_nonword)
  have "\<forall>c\<in>set (re_sub_nonword t). py_isspace c"
    using assms by (auto simp: re_sub_nonword_def)
  then have "py_split (re_sub_nonword t) = []"
    unfolding py_split_def by (rule split_ws_spaces)
  then show ?thesis by (simp add: preprocess_text_def l)
qed

text \<open>
  Claim C9 (for text made only of punctuation and whitespace the normaliser returns the empty
  string) fails on the code at the underscore: it is a punctuation sign, the pattern
  \<open>[^\w\s]\<close> keeps it because \<open>\w\<close> matches it, and both normalisers return it unchanged.
\<close>

theorem preprocess_text_keeps_underscore:
  "CHR ''_'' \<in> set string_punctuation \<and> preprocess_text ''_'' = ''_'' \<and> clean_text ''_'' = ''_''"
  by code_simp


section \<open>Properties of the context signals\<close>

text \<open>
  Claim C5 (name extraction takes the token after the first listed phrase, with punctuation
  stripped, and keeps it when it is longer than one character) fails on the code where the
  token carries punctuation: the token is stored as it stands in the input.
\<close>

theorem extract_user_name_keeps_punctuation:
  "user_name (extract_user_name example_context ''my name is Sam.'') = Some ''Sam.''"
  by code_simp

text \<open>
  Claim C4, as stated (input with a positive word records the sentiment positive, even when
  it also has a negative word), fails: the negative words are scanned after the positive
  ones and their hit overwrites the entry.
\<close>

theorem sentiment_positive_counterexample:
  "any_word_in positive_words (py_lower ''good but bad'') \<and>
   context_variables (update_context_variables example_context ''good but bad'' ''feedback'')
     ''last_sentiment'' = Some (PyStr ''negative'')"
  by code_simp

text \<open>
  Claim C4, amended: after a turn the stored last sentiment is negative when the lowered
  input contains a negative word; otherwise positive when it contains a positive word;
  otherwise what was stored before.
\<close>

theorem last_sentiment_after_turn:
  "context_variables (update_context_variables c inp tg) ''last_sentiment'' =
     (if any_word_in negative_words (py_lower inp) then Some (PyStr ''negative'')
      else if any_word_in positive_words (py_lower inp) then Some (PyStr ''positive'')
      else context_variables c ''last_sentiment'')"
  by (simp add: update_context_variables_def Let_def)


section \<open>Properties of the classifier\<close>

lemma apply_context_scoring_ge:
  assumes "0 \<le> r" "r \<le> 1"
  shows "r \<le> apply_context_scoring r ti app ctx"
proof -
  have a: "r \<le> min (r * 1.1) 1" using assms by simp
  have b: "\<And>x. r \<le> x \<Longrightarrow> r \<le> x * 1.05" using assms by simp
  show ?thesis unfolding apply_context_scoring_def Let_def
    using a b by (auto split: option.splits)
qed

lemma apply_context_scoring_eq:
  assumes "tag_info.application ti \<noteq> app"
    and "ctx = None \<or> (\<exists>c. ctx = Some c \<and> tag ti \<notin> set (recent_intents c))"
  shows "apply_context_scoring r ti app ctx = r"
  using assms unfolding apply_context_scoring_def Let_def by (auto split: option.splits)

lemma apply_context_scoring_le:
  assumes "0 \<le> r" "r \<le> 1"
  shows "apply_context_scoring r ti app ctx \<le> 1.05"
  using assms unfolding apply_context_scoring_def Let_def
  by (auto split: option.splits simp: min_def)

text \<open>
  Claim C1 (the adjusted confidence is at least the raw similarity under a boost, equal to it
  without one, and never above 1.0) fails on the code in its last part: the cap follows the
  in-application boost only, and the recent-intent boost multiplies the capped score by 1.05.
  A raw similarity of 1 for a pattern of the requested application whose tag is among the
  last three intents is returned as 1.05.
\<close>

theorem apply_context_scoring_exceeds_one:
  "apply_context_scoring 1 \<lparr>application = ''customer_support'', tag = ''greeting''\<rparr>
     ''customer_support'' (Some example_context) = 1.05"
  by code_simp

lemma train_collect_foldl:
  "foldl train_collect acc apps =
     (fst acc @ concat (map (\<lambda>e. app_data.patterns (snd e)) (filter counts_match apps)),
      snd acc @ concat (map entry_tags (filter counts_match apps)))"
  by (induction apps arbitrary: acc)
     (auto simp: train_collect_def counts_match_def entry_tags_def Let_def)

lemma train_collect_all:
  "foldl train_collect ([], []) apps =
     (concat (map (\<lambda>e. app_data.patterns (snd e)) (filter counts_match apps)),
      concat (map entry_tags (filter counts_match apps)))"
  by (simp add: train_collect_foldl)

text \<open>
  Claim C7, as stated (training returns false exactly when no pattern remains), fails:
  \<open>train\<close> also returns false when fitting the vectoriser raises. The corpus below keeps its
  one pattern, a question mark, and the fit finds no token in it.
\<close>

theorem train_fails_with_patterns_counterexample:
  "fst (foldl train_collect ([], []) (the symbols_corpus)) = [''?''] \<and>
   fst (train token_vectorizer (IntentClassifier 5000 0.3) symbols_corpus) = False"
  by code_simp

text \<open>
  Claim C7, amended: \<open>train\<close> skips every application whose pattern and tag counts differ and
  collects, in corpus order, the patterns and the tags of all the others. When no pattern
  remains it returns false and leaves the classifier as it was. Otherwise it stores exactly
  the collected patterns and tags, and fits the vectoriser on exactly these patterns: it
  returns true, with the fitted rows stored, when the fit succeeds, and false, marked
  untrained, when the fit raises.
\<close>

theorem train_skips_mismatched:
  "train sk c training =
     (let apps = (case training of None \<Rightarrow> [] | Some a \<Rightarrow> a);
          kept = filter counts_match apps;
          ps = concat (map (\<lambda>e. app_data.patterns (snd e)) kept);
          ts = concat (map entry_tags kept)
      in if ps = [] then (False, c)
         else case fit_transform sk ps of
                None \<Rightarrow>
                  (False, c\<lparr>intent_classifier.patterns := ps, intent_classifier.tags := ts,
                             trained := False\<rparr>)
              | Some (m, rows) \<Rightarrow>
                  (True, c\<lparr>intent_classifier.patterns := ps, intent_classifier.tags := ts,
                            vectorizer := Some m, X := Some rows, trained := True\<rparr>))"
proof -
  define apps where "apps = (case training of None \<Rightarrow> [] | Some a \<Rightarrow> a)"
  define ps where "ps = concat (map (\<lambda>e. app_data.patterns (snd e)) (filter counts_match apps))"
  define ts where "ts = concat (map entry_tags (filter counts_match apps))"
  have f: "foldl train_collect ([], []) apps = (ps, ts)"
    unfolding ps_def ts_def by (rule train_collect_all)
  show ?thesis
    unfolding train_def Let_def apps_def[symmetric] f ps_def[symmetric] ts_def[symmetric]
    by (simp split: option.splits prod.splits)
qed

text \<open>
  On the example corpus the second application has two patterns and one tag: the index
  holds the two patterns of the first application only.
\<close>

lemma train_example_index:
  "fst (train token_vectorizer (IntentClassifier 5000 0.3) example_corpus) = True \<and>
   intent_classifier.patterns trained_example = [''hello'', ''order status''] \<and>
   intent_classifier.tags trained_example =
     [\<lparr>application = ''customer_support'', tag = ''greeting''\<rparr>,
      \<lparr>application = ''customer_support'', tag = ''order_status''\<rparr>] \<and>
   X trained_example = Some [''hello'', ''order status'']"
  by code_simp

lemma those_rows_length: "those_rows rs = Some vs \<Longrightarrow> length vs = length rs"
proof (induction rs arbitrary: vs)
  case Nil then show ?case by simp
next
  case (Cons r rs)
  then show ?case by (cases r) auto
qed

lemma fit_transform_rows:
  "fit_transform sk docs = Some (m, rows) \<Longrightarrow> length rows = length docs"
  by (auto simp: fit_transform_def split: option.splits dest: those_rows_length)

lemma argmax_scan_max:
  assumes "j < length pre" "pre ! j = b" "b = Max (set pre)"
  shows "fst (argmax_scan xs (length pre) (j, b)) < length (pre @ xs) \<and>
         (pre @ xs) ! fst (argmax_scan xs (length pre) (j, b)) = snd (argmax_scan xs (length pre) (j, b)) \<and>
         snd (argmax_scan xs (length pre) (j, b)) = Max (set (pre @ xs))"
  using assms
proof (induction xs arbitrary: pre j b)
  case Nil then show ?case by simp
next
  case (Cons x xs)
  have ne: "set pre \<noteq> {}" using Cons.prems(1) by auto
  have mx: "Max (insert x (set pre)) = max x (Max (set pre))"
    by (rule Max_insert[OF _ ne]) simp
  show ?case
  proof (cases "b < x")
    case True
    have m: "x = Max (set (pre @ [x]))"
      using mx True Cons.prems(3) by (simp add: max_def del: Max_less_iff Max_insert)
    have "length pre < length (pre @ [x])" "(pre @ [x]) ! length pre = x" by simp_all
    from Cons.IH[OF this m] True show ?thesis by simp
  next
    case False
    have m: "b = Max (set (pre @ [x]))"
      using mx False Cons.prems(3) by (simp add: max_def del: Max_less_iff Max_insert)
    have "j < length (pre @ [x])" "(pre @ [x]) ! j = b"
      using Cons.prems by (simp_all add: nth_append)
    from Cons.IH[OF this m] False show ?thesis by simp
  qed
qed

lemma argmax_max:
  assumes "sims \<noteq> []"
  shows "\<exists>i. argmax sims = Some i \<and> i < length sims \<and> sims ! i = Max (set sims)"
proof -
  obtain x ys where s: "sims = x # ys" using assms by (cases sims) auto
  have "fst (argmax_scan ys (length [x]) (0, x)) < length ([x] @ ys) \<and>
        ([x] @ ys) ! fst (argmax_scan ys (length [x]) (0, x)) = snd (argmax_scan ys (length [x]) (0, x)) \<and>
        snd (argmax_scan ys (length [x]) (0, x)) = Max (set ([x] @ ys))"
    by (rule argmax_scan_max) simp_all
  then show ?thesis by (simp add: s argmax_def)
qed

lemma collected_lengths:
  "length (concat (map (\<lambda>e. app_data.patterns (snd e)) (filter counts_match apps)))
     = length (concat (map entry_tags (filter counts_match apps)))"
  by (induction apps) (auto simp: counts_match_def entry_tags_def)

lemma train_True:
  assumes "train sk c0 d = (True, c)"
  shows "trained c \<and> (\<exists>m rows. vectorizer c = Some m \<and> X c = Some rows \<and> rows \<noteq> [] \<and>
           length rows = length (intent_classifier.tags c)) \<and>
         intent_classifier.tags c
           = concat (map entry_tags (filter counts_match (case d of None \<Rightarrow> [] | Some a \<Rightarrow> a)))"
proof -
  let ?apps = "case d of None \<Rightarrow> [] | Some a \<Rightarrow> a"
  let ?ps = "concat (map (\<lambda>e. app_data.patterns (snd e)) (filter counts_match ?apps))"
  let ?ts = "concat (map entry_tags (filter counts_match ?apps))"
  have len: "length ?ps = length ?ts" by (rule collected_lengths)
  have ne: "?ps \<noteq> []"
    using assms by (auto simp: train_def train_collect_all Let_def split: if_splits)
  then obtain m rows where ft: "fit_transform sk ?ps = Some (m, rows)"
    and c: "c = c0\<lparr>intent_classifier.patterns := ?ps, intent_classifier.tags := ?ts,
                 vectorizer := Some m, X := Some rows, trained := True\<rparr>"
    using assms by (auto simp: train_def train_collect_all Let_def split: if_splits option.splits)
  have lr: "length rows = length ?ps" using ft by (rule fit_transform_rows)
  then have rne: "rows \<noteq> []" using ne by (cases rows) auto
  have "length rows = length ?ts" using lr len by simp
  then show ?thesis using c rne by simp
qed

lemma train_False:
  assumes "train sk c0 d = (False, c)"
  shows "c = c0 \<or> \<not> trained c"
  using assms by (auto simp: train_def Let_def split: if_splits option.splits prod.splits)

lemma predict_tag:
  "fst (predict sk c txt app ctx) = ''unknown'' \<or>
   (trained c \<and> fst (predict sk c txt app ctx) \<in> tag ` set (intent_classifier.tags c))"
  by (auto simp: predict_def Let_def split: option.splits)

text \<open>
  Claim C2: for a classifier that a call of \<open>train\<close> has trained, and a text whose best
  similarity over the trained rows (the largest entry of the similarity row) is strictly
  below the minimum confidence, \<open>predict\<close> returns the tag \<open>unknown\<close> with that similarity
  itself as the confidence.
\<close>

theorem predict_below_threshold:
  assumes "train sk c0 d = (True, c)"
    and "similarities sk c txt = Some sims"
    and "Max (set sims) < min_confidence c"
  shows "predict sk c txt app ctx = (''unknown'', Max (set sims))"
proof -
  from train_True[OF assms(1)] obtain m rows where
    t: "trained c" and v: "vectorizer c = Some m" and x: "X c = Some rows" and ne: "rows \<noteq> []"
    by blast
  have "length sims = length rows"
    using assms(2) v x by (auto simp: similarities_def split: option.splits)
  then have "sims \<noteq> []" using ne by auto
  then obtain i where "argmax sims = Some i" "sims ! i = Max (set sims)"
    using argmax_max by blast
  then show ?thesis using t assms(2,3) by (simp add: predict_def)
qed

theorem predict_below_threshold_witness:
  "train token_vectorizer (IntentClassifier 5000 0.3) example_corpus = (True, trained_example) \<and>
   similarities token_vectorizer trained_example ''what is the weather'' = Some [1 / 5, 1 / 5] \<and>
   Max (set [1 / 5, 1 / 5 :: real]) < min_confidence trained_example \<and>
   predict token_vectorizer trained_example ''what is the weather'' ''customer_support'' None
     = (''unknown'', 1 / 5)"
proof -
  have "fst (train token_vectorizer (IntentClassifier 5000 0.3) example_corpus) = True"
    by code_simp
  then have h1: "train token_vectorizer (IntentClassifier 5000 0.3) example_corpus
                   = (True, trained_example)"
    by (simp add: trained_example_def prod_eq_iff)
  have h2: "similarities token_vectorizer trained_example ''what is the weather''
              = Some [1 / 5, 1 / 5]"
    by code_simp
  have h3: "Max (set [1 / 5, 1 / 5 :: real]) < min_confidence trained_example"
    by code_simp
  show ?thesis
    using h1 h2 h3 predict_below_threshold[OF h1 h2 h3, of "''customer_support''" None]
    by simp
qed

lemma entry_tags_sub:
  "tag ` set (concat (map entry_tags (filter counts_match apps)))
     \<subseteq> set (concat (map (\<lambda>e. app_data.tags (snd e)) apps))"
  by (induction apps) (auto simp: entry_tags_def)

lemma train_True_tags:
  assumes "train sk c0 d = (True, c)"
  shows "tag ` set (intent_classifier.tags c) \<subseteq> set (corpus_tags d)"
proof (cases d)
  case None
  then show ?thesis using train_True[OF assms] by simp
next
  case (Some apps)
  then show ?thesis using train_True[OF assms] entry_tags_sub[of apps]
    by (simp add: corpus_tags_def)
qed

lemma train_inv_step:
  assumes "train_inv s"
  shows "train_inv (snd (train sk (fst s) d), if fst (train sk (fst s) d) then Some d else snd s)"
proof (cases "fst (train sk (fst s) d)")
  case True
  then have "train sk (fst s) d = (True, snd (train sk (fst s) d))" by (simp add: prod_eq_iff)
  from train_True_tags[OF this] True show ?thesis by (simp add: train_inv_def)
next
  case False
  then have "train sk (fst s) d = (False, snd (train sk (fst s) d))" by (simp add: prod_eq_iff)
  from train_False[OF this] False assms show ?thesis by (auto simp: train_inv_def)
qed

lemma train_all_inv: "train_inv s \<Longrightarrow> train_inv (train_all sk s ds)"
proof (induction ds arbitrary: s)
  case Nil then show ?case by simp
next
  case (Cons d ds)
  show ?case using Cons.IH[OF train_inv_step[OF Cons.prems, of sk d]] by (simp add: Let_def)
qed

text \<open>
  Claim C10: after any sequence of \<open>train\<close> calls on a new classifier, the tag \<open>predict\<close>
  returns is \<open>unknown\<close> or one of the tags of the corpus of the last call of \<open>train\<close> that
  returned true.
\<close>

theorem predict_tag_from_corpus:
  assumes "train_all sk (IntentClassifier mf mc, None) ds = (c, last_ok)"
  shows "fst (predict sk c txt app ctx) = ''unknown'' \<or>
         (\<exists>d. last_ok = Some d \<and> fst (predict sk c txt app ctx) \<in> set (corpus_tags d))"
proof -
  have "train_inv (IntentClassifier mf mc, None)"
    by (simp add: train_inv_def IntentClassifier_def)
  then have "train_inv (train_all sk (IntentClassifier mf mc, None) ds)" by (rule train_all_inv)
  then have inv: "train_inv (c, last_ok)" using assms by simp
  from predict_tag[of sk c "txt" app ctx] show ?thesis
  proof
    assume "fst (predict sk c txt app ctx) = ''unknown''" then show ?thesis by simp
  next
    assume a: "trained c \<and> fst (predict sk c txt app ctx) \<in> tag ` set (intent_classifier.tags c)"
    with inv obtain d where "last_ok = Some d"
      "tag ` set (intent_classifier.tags c) \<subseteq> set (corpus_tags d)"
      by (auto simp: train_inv_def)
    with a show ?thesis by blast
  qed
qed

theorem predict_tag_from_corpus_witness:
  "train_all token_vectorizer (IntentClassifier 5000 0.3, None) [example_corpus, None]
     = (trained_example, Some example_corpus) \<and>
   fst (predict token_vectorizer trained_example ''hello'' ''customer_support'' None) = ''greeting'' \<and>
   ''greeting'' \<in> set (corpus_tags example_corpus)"
proof -
  have f: "fst (train token_vectorizer (IntentClassifier 5000 0.3) example_corpus) = True"
    by code_simp
  have n: "train token_vectorizer trained_example None = (False, trained_example)"
    by (simp add: train_def)
  have h1: "train_all token_vectorizer (IntentClassifier 5000 0.3, None) [example_corpus, None]
              = (trained_example, Some example_corpus)"
    by (simp add: Let_def f n trained_example_def[symmetric])
  have p: "fst (predict token_vectorizer trained_example ''hello'' ''customer_support'' None)
             = ''greeting''"
    by code_simp
  show ?thesis
    using h1 p predict_tag_from_corpus[OF h1, of "''hello''" "''customer_support''" None]
    by simp
qed

section \<open>Properties of the training data manager\<close>

text \<open>
  Claim C8: when the corpus cannot be written to disk, \<open>add_example\<close> returns false and the
  corpus in memory holds the new pattern, response and tag at the end of the application's
  lists (the application is created when unknown); nothing is rolled back.
\<close>

theorem add_example_not_rolled_back:
  assumes "data m = Some apps"
  shows "fst (add_example False m app pattern response tg) = False \<and>
         (\<exists>apps'. data (snd (add_example False m app pattern response tg)) = Some apps' \<and>
            map_of apps' = (map_of apps)(app \<mapsto> add_to_entry (map_of apps app) pattern response tg))"
  using assms
  by (auto simp: add_example_def save_data_def Let_def add_to_entry_def
        AList.map_of_map_entry AList.update_conv' fun_eq_iff split: option.splits)

theorem add_example_not_rolled_back_witness:
  "data example_manager = example_corpus \<and>
   fst (add_example False example_manager ''custom_app'' ''foo bar'' ''baz response'' ''foo_tag'') = False \<and>
   map_of (the (data (snd (add_example False example_manager ''custom_app'' ''foo bar''
        ''baz response'' ''foo_tag'')))) ''custom_app''
     = Some \<lparr>app_data.patterns = [''foo bar''], app_data.responses = [''baz response''],
             app_data.tags = [''foo_tag'']\<rparr>"
proof -
  obtain apps where a: "example_corpus = Some apps" by (simp add: example_corpus_def)
  then have h: "data example_manager = Some apps" by (simp add: example_manager_def)
  have n: "map_of apps ''custom_app'' = None"
    using a by (auto simp: example_corpus_def)
  from add_example_not_rolled_back[OF h, of "''custom_app''" "''foo bar''" "''baz response''" "''foo_tag''"]
  show ?thesis using h a n by (auto simp: add_to_entry_def)
qed


section \<open>Properties of the context store\<close>

lemma delete_fold_filter:
  "foldl (\<lambda>d u. AList.delete u d) al us = filter (\<lambda>p. fst p \<notin> set us) al"
  by (induction us arbitrary: al) (auto simp: AList.delete_eq intro: filter_cong)

lemma cleanup_contexts:
  "user_contexts (cleanup_expired_sessions cm) =
     filter (\<lambda>p. fst p \<notin> fst ` {q \<in> set (user_contexts cm).
                 session_expired (session_timeout cm) (clock cm (clock_reads cm)) (snd q)})
       (user_contexts cm)"
  by (auto simp: cleanup_expired_sessions_def datetime_now_def Let_def delete_fold_filter
        intro!: filter_cong)

lemma cleanup_fields [simp]:
  "max_context_length (cleanup_expired_sessions cm) = max_context_length cm"
  "session_timeout (cleanup_expired_sessions cm) = session_timeout cm"
  "clock (cleanup_expired_sessions cm) = clock cm"
  "clock_reads (cleanup_expired_sessions cm) = Suc (clock_reads cm)"
  by (simp_all add: cleanup_expired_sessions_def datetime_now_def Let_def)

lemma cleanup_subset:
  "set (user_contexts (cleanup_expired_sessions cm)) \<subseteq> set (user_contexts cm)"
  by (auto simp: cleanup_contexts)

lemma signals_keep_history [simp]:
  "conversation_history (extract_user_name c inp) = conversation_history c"
  "conversation_history (update_context_variables c inp tg) = conversation_history c"
  by (simp_all add: extract_user_name_def update_context_variables_def Let_def)

lemma update_context_contexts:
  "\<exists>c5.
     user_contexts (update_context cm uid inp resp tg app)
       = AList.update uid c5 (user_contexts (cleanup_expired_sessions cm)) \<and>
     conversation_history c5 =
       (case map_of (user_contexts (cleanup_expired_sessions cm)) uid of
          None \<Rightarrow>
            deque_append \<lparr>maxlen = max_context_length cm, items = []\<rparr>
              \<lparr>timestamp = clock cm (clock_reads cm + 3), user_input = inp, bot_response = resp,
               intent = tg, application = app\<rparr>
        | Some c \<Rightarrow>
            deque_append (conversation_history c)
              \<lparr>timestamp = clock cm (clock_reads cm + 2), user_input = inp, bot_response = resp,
               intent = tg, application = app\<rparr>)"
proof (cases "map_of (user_contexts (cleanup_expired_sessions cm)) uid")
  case None
  show ?thesis
    apply (simp add: None update_context_def get_context_def create_new_context_def
             datetime_now_def Let_def)
    apply (intro exI conjI, rule refl)
    apply (simp add: eval_nat_numeral)
    done
next
  case (Some c)
  show ?thesis
    apply (simp add: Some update_context_def get_context_def datetime_now_def Let_def)
    apply (intro exI conjI, rule refl)
    apply (simp add: eval_nat_numeral)
    done
qed

lemma update_context_fields [simp]:
  "max_context_length (update_context cm uid inp resp tg app) = max_context_length cm"
  "session_timeout (update_context cm uid inp resp tg app) = session_timeout cm"
  "clock (update_context cm uid inp resp tg app) = clock cm"
  by (simp_all add: update_context_def get_context_def create_new_context_def datetime_now_def
        Let_def split: option.splits)

lemma deque_append_bounded:
  assumes "length (items d) \<le> maxlen d"
  shows "length (items (deque_append d x)) \<le> maxlen d" and "maxlen (deque_append d x) = maxlen d"
  using assms by (simp_all add: deque_append_def Let_def)

lemma deque_append_full:
  assumes "length (items d) = maxlen d" and "0 < maxlen d"
  shows "items (deque_append d x) = tl (items d) @ [x]"
proof -
  have "items d \<noteq> []" using assms by auto
  then show ?thesis using assms by (simp add: deque_append_def Let_def)
qed

lemma set_update_subset: "set (AList.update k v al) \<subseteq> insert (k, v) (set al)"
  by (induction al) auto

lemma store_inv_update:
  assumes "store_inv n cm"
  shows "store_inv n (update_context cm uid inp resp tg app)"
proof -
  let ?al = "user_contexts (cleanup_expired_sessions cm)"
  have n: "max_context_length cm = n" using assms by (simp add: store_inv_def)
  have old: "\<And>p. p \<in> set ?al \<Longrightarrow> maxlen (conversation_history (snd p)) = n \<and>
                length (items (conversation_history (snd p))) \<le> n"
    using assms cleanup_subset[of cm] by (auto simp: store_inv_def)
  obtain c5 where u: "user_contexts (update_context cm uid inp resp tg app) = AList.update uid c5 ?al"
    and h: "conversation_history c5 =
       (case map_of ?al uid of
          None \<Rightarrow>
            deque_append \<lparr>maxlen = max_context_length cm, items = []\<rparr>
              \<lparr>timestamp = clock cm (clock_reads cm + 3), user_input = inp, bot_response = resp,
               intent = tg, application = app\<rparr>
        | Some c \<Rightarrow>
            deque_append (conversation_history c)
              \<lparr>timestamp = clock cm (clock_reads cm + 2), user_input = inp, bot_response = resp,
               intent = tg, application = app\<rparr>)"
    using update_context_contexts[of cm uid inp resp tg app] by blast
  have c5: "maxlen (conversation_history c5) = n \<and> length (items (conversation_history c5)) \<le> n"
  proof (cases "map_of ?al uid")
    case None
    then show ?thesis using h n by (simp add: deque_append_def Let_def)
  next
    case (Some c)
    then have "(uid, c) \<in> set ?al" by (rule map_of_SomeD)
    from old[OF this] have b: "maxlen (conversation_history c) = n"
      "length (items (conversation_history c)) \<le> maxlen (conversation_history c)" by simp_all
    show ?thesis using Some h b(1) deque_append_bounded[OF b(2)] by simp
  qed
  have "\<And>p. p \<in> set (AList.update uid c5 ?al) \<Longrightarrow>
          maxlen (conversation_history (snd p)) = n \<and>
          length (items (conversation_history (snd p))) \<le> n"
    using set_update_subset[of uid c5 ?al] old c5 by auto
  then show ?thesis using u n by (simp add: store_inv_def)
qed

lemma store_inv_run: "store_inv n cm \<Longrightarrow> store_inv n (run_updates cm calls)"
proof (induction calls arbitrary: cm)
  case Nil then show ?case by simp
next
  case (Cons call calls)
  obtain uid inp resp tg app where c: "call = (uid, inp, resp, tg, app)" by (cases call) auto
  show ?case using Cons.IH[OF store_inv_update[OF Cons.prems]] by (simp add: c)
qed

text \<open>
  Claim C3: after any sequence of \<open>update_context\<close> calls on a manager of capacity \<open>n\<close>, every
  stored conversation history holds at most \<open>n\<close> turns; and when the next call finds the
  user's history full, the history it leaves is the old one without its oldest turn, followed
  by the new turn.
\<close>

theorem history_bounded_fifo:
  assumes "cm = run_updates (ContextManager n t clk) calls"
  shows "(\<forall>p \<in> set (user_contexts cm). length (items (conversation_history (snd p))) \<le> n) \<and>
         (\<forall>c. map_of (user_contexts (cleanup_expired_sessions cm)) uid = Some c \<and>
               length (items (conversation_history c)) = n \<and> 0 < n \<longrightarrow>
            (\<exists>c'. map_of (user_contexts (update_context cm uid inp resp tg app)) uid = Some c' \<and>
               items (conversation_history c') =
                 tl (items (conversation_history c)) @
                 [\<lparr>timestamp = clock cm (clock_reads cm + 2), user_input = inp,
                   bot_response = resp, intent = tg, application = app\<rparr>]))"
proof -
  have "store_inv n (ContextManager n t clk)" by (simp add: store_inv_def ContextManager_def)
  then have inv: "store_inv n cm" unfolding assms by (rule store_inv_run)
  have first: "\<forall>p \<in> set (user_contexts cm). length (items (conversation_history (snd p))) \<le> n"
    using inv by (simp add: store_inv_def)
  have second: "\<exists>c'. map_of (user_contexts (update_context cm uid inp resp tg app)) uid = Some c' \<and>
               items (conversation_history c') =
                 tl (items (conversation_history c)) @
                 [\<lparr>timestamp = clock cm (clock_reads cm + 2), user_input = inp,
                   bot_response = resp, intent = tg, application = app\<rparr>]"
    if a: "map_of (user_contexts (cleanup_expired_sessions cm)) uid = Some c"
      and full: "length (items (conversation_history c)) = n" and pos: "0 < n" for c
  proof -
    have "(uid, c) \<in> set (user_contexts (cleanup_expired_sessions cm))"
      using a by (rule map_of_SomeD)
    then have "(uid, c) \<in> set (user_contexts cm)" using cleanup_subset[of cm] by blast
    then have m: "maxlen (conversation_history c) = n" using inv by (auto simp: store_inv_def)
    obtain c5 where u: "user_contexts (update_context cm uid inp resp tg app)
          = AList.update uid c5 (user_contexts (cleanup_expired_sessions cm))"
      and h: "conversation_history c5 = deque_append (conversation_history c)
              \<lparr>timestamp = clock cm (clock_reads cm + 2), user_input = inp, bot_response = resp,
               intent = tg, application = app\<rparr>"
      using update_context_contexts[of cm uid inp resp tg app] a by auto
    have "map_of (user_contexts (update_context cm uid inp resp tg app)) uid = Some c5"
      by (simp add: u AList.update_conv')
    moreover have "items (conversation_history c5) =
        tl (items (conversation_history c)) @
        [\<lparr>timestamp = clock cm (clock_reads cm + 2), user_input = inp,
          bot_response = resp, intent = tg, application = app\<rparr>]"
      unfolding h by (rule deque_append_full) (simp_all add: m full pos)
    ultimately show ?thesis by blast
  qed
  show ?thesis using first second by blast
qed

lemma example_store_history:
  "map_option (\<lambda>c. map user_input (items (conversation_history c)))
     (map_of (user_contexts (cleanup_expired_sessions example_store)) ''u1'')
   = Some [''hello'', ''order status'']"
  by code_simp

theorem history_bounded_fifo_witness:
  "(\<exists>c. map_of (user_contexts (cleanup_expired_sessions example_store)) ''u1'' = Some c \<and>
        map user_input (items (conversation_history c)) = [''hello'', ''order status'']) \<and>
   map (\<lambda>p. length (items (conversation_history (snd p)))) (user_contexts example_store) = [2] \<and>
   (\<exists>c'. map_of (user_contexts
              (update_context example_store ''u1'' ''thanks'' ''You are welcome'' ''thanks''
                 ''customer_support'')) ''u1'' = Some c' \<and>
         map user_input (items (conversation_history c')) = [''order status'', ''thanks''])"
proof -
  obtain c where c: "map_of (user_contexts (cleanup_expired_sessions example_store)) ''u1'' = Some c"
    and h: "map user_input (items (conversation_history c)) = [''hello'', ''order status'']"
    using example_store_history by auto
  have len: "length (items (conversation_history c)) = 2"
    using arg_cong[OF h, of length] by simp
  have all: "map (\<lambda>p. length (items (conversation_history (snd p)))) (user_contexts example_store) = [2]"
    by code_simp
  have "\<exists>c'. map_of (user_contexts
              (update_context example_store ''u1'' ''thanks'' ''You are welcome'' ''thanks''
                 ''customer_support'')) ''u1'' = Some c' \<and>
         items (conversation_history c') =
           tl (items (conversation_history c)) @
           [\<lparr>timestamp = clock example_store (clock_reads example_store + 2),
             user_input = ''thanks'', bot_response = ''You are welcome'', intent = ''thanks'',
             application = ''customer_support''\<rparr>]"
    using history_bounded_fifo[of example_store 2 3600 "\<lambda>k. int k"
        "[(''u1'', ''hello'', ''Hello!'', ''greeting'', ''customer_support''),
          (''u1'', ''order status'', ''Which order?'', ''order_status'', ''customer_support'')]"
        "''u1''" "''thanks''" "''You are welcome''" "''thanks''" "''customer_support''"]
      c len
    by (simp add: example_store_def)
  then obtain c' where c': "map_of (user_contexts
              (update_context example_store ''u1'' ''thanks'' ''You are welcome'' ''thanks''
                 ''customer_support'')) ''u1'' = Some c'"
    and i: "items (conversation_history c') =
           tl (items (conversation_history c)) @
           [\<lparr>timestamp = clock example_store (clock_reads example_store + 2),
             user_input = ''thanks'', bot_response = ''You are welcome'', intent = ''thanks'',
             application = ''customer_support''\<rparr>]"
    by blast
  have "map user_input (items (conversation_history c')) = [''order status'', ''thanks'']"
    unfolding i using h by (simp add: map_tl)
  with c' have B: "\<exists>c'. map_of (user_contexts
              (update_context example_store ''u1'' ''thanks'' ''You are welcome'' ''thanks''
                 ''customer_support'')) ''u1'' = Some c' \<and>
         map user_input (items (conversation_history c')) = [''order status'', ''thanks'']"
    by (intro exI[of _ c'] conjI)
  from c h have A: "\<exists>c. map_of (user_contexts (cleanup_expired_sessions example_store)) ''u1'' = Some c \<and>
        map user_input (items (conversation_history c)) = [''hello'', ''order status'']"
    by (intro exI[of _ c] conjI)
  show ?thesis by (rule conjI, rule A, rule conjI, rule all, rule B)
qed






text \<open>
  From \<open>2^34\<close> seconds on, half a unit in the last place is more than a microsecond: an age
  one microsecond over such a timeout is rounded to the timeout and does not exceed it.
\<close>

lemma total_seconds_rounds_to_timeout:
  "total_seconds (2 ^ 34 * 1000000 + 1) = 2 ^ 34"
  by code_simp







end
